theory Spec2Isabelle
  imports Complex_Main "HOL-Library.Word"
begin

unbundle bit_operations_syntax

section \<open>Maze Shooter: a shallow embedding of \<^verbatim>\<open>main.cpp\<close>\<close>

text \<open>
  The program is one C++ class, \<^verbatim>\<open>MazeShooter\<close>, whose methods mutate the fields of
  the object. Each method modelled here takes the fields it reads and returns the
  fields it writes. Conventions:
  \<^item> \<^verbatim>\<open>int\<close> and \<^verbatim>\<open>Uint32\<close> values whose bit pattern matters (texture coordinates,
    pixels, tick counts) are 32-bit words; signed comparisons are written \<open><s\<close>,
    \<open>\<le>s\<close>.
  \<^item> Small counters and tile coordinates are \<open>int\<close>: they stay far away from the
    32-bit range before an out-of-range array access would have happened.
  \<^item> Every array access is checked: an index outside the array, which is undefined
    behaviour in C++, is the error value \<open>OutOfBounds\<close>.
  \<^item> A finite \<^verbatim>\<open>double\<close> is a \<open>real\<close>, with exact arithmetic (rounding is not
    modelled). Where the code divides by a value that may be zero, the result is a
    value of the type \<open>double\<close> below, which adds the IEEE 754 infinities and NaN.
  \<^item> Calls into SDL (sound, drawing, the clock) are left out; the value that
    \<^verbatim>\<open>SDL_GetTicks()\<close> returns is a parameter.
\<close>

datatype error = OutOfBounds | OutOfFuel

type_synonym Uint32 = "32 word"
type_synonym int32 = "32 word"

subsection \<open>Constants\<close>

definition SCREEN_WIDTH :: int where "SCREEN_WIDTH = 800"
definition SCREEN_HEIGHT :: int where "SCREEN_HEIGHT = 600"
definition MAP_WIDTH :: nat where "MAP_WIDTH = 24"
definition MAP_HEIGHT :: nat where "MAP_HEIGHT = 24"
definition MOVE_SPEED :: real where "MOVE_SPEED = 0.05"
definition ROT_SPEED :: real where "ROT_SPEED = 0.03"
definition JUMP_SPEED :: real where "JUMP_SPEED = 0.15"
definition GRAVITY :: real where "GRAVITY = 0.01"
definition GROUND_HEIGHT :: real where "GROUND_HEIGHT = 0.0"

definition TEXTURE_WIDTH :: int32 where "TEXTURE_WIDTH = 64"
definition TEXTURE_HEIGHT :: int32 where "TEXTURE_HEIGHT = 64"
definition NUM_TEXTURES :: int32 where "NUM_TEXTURES = 8"

definition GUN_FRAMES :: int where "GUN_FRAMES = 4"
definition ANIMATION_SPEED :: Uint32 where "ANIMATION_SPEED = 100"

subsection \<open>Arrays\<close>

text \<open>Reading \<^verbatim>\<open>xs[i]\<close>: the element, or \<open>OutOfBounds\<close> where C++ leaves the read undefined.\<close>

definition arrayAt :: "'a list \<Rightarrow> int \<Rightarrow> error + 'a" where
  "arrayAt xs i = (if 0 \<le> i \<and> i < int (length xs) then Inr (xs ! nat i) else Inl OutOfBounds)"

subsection \<open>Texture sampling\<close>

text \<open>
  \<^verbatim>\<open>Uint32 texture[NUM_TEXTURES][TEXTURE_WIDTH * TEXTURE_HEIGHT]\<close> is a list of rows.
  \<^verbatim>\<open>getTexturePixel\<close> masks both coordinates first, then rejects the texture number,
  then reads \<^verbatim>\<open>texture[textureNum][TEXTURE_WIDTH * texY + texX]\<close>.
\<close>

definition getTexturePixel :: "Uint32 list list \<Rightarrow> int32 \<Rightarrow> int32 \<Rightarrow> int32 \<Rightarrow> error + Uint32" where
  "getTexturePixel texture textureNum texX0 texY0 =
     (let texX = texX0 AND (TEXTURE_WIDTH - 1);
          texY = texY0 AND (TEXTURE_HEIGHT - 1)
      in if textureNum <s 1 \<or> NUM_TEXTURES \<le>s textureNum then Inr 0xFFFF00FF
         else case arrayAt texture (sint textureNum) of
                Inl e \<Rightarrow> Inl e
              | Inr row \<Rightarrow> arrayAt row (sint (TEXTURE_WIDTH * texY + texX)))"

subsection \<open>The state of the game object\<close>

datatype GameState = STATE_MENU | STATE_PLAYING | STATE_EXIT

datatype MenuItem = MENU_NEW_GAME | MENU_EXIT

text \<open>The scancodes the game tests for; every other key is \<open>SDL_SCANCODE_OTHER\<close>.\<close>

datatype scancode =
    SDL_SCANCODE_W | SDL_SCANCODE_S | SDL_SCANCODE_A | SDL_SCANCODE_D
  | SDL_SCANCODE_LEFT | SDL_SCANCODE_RIGHT
  | SDL_SCANCODE_SPACE | SDL_SCANCODE_LSHIFT | SDL_SCANCODE_RSHIFT | SDL_SCANCODE_X
  | SDL_SCANCODE_ESCAPE | SDL_SCANCODE_OTHER

datatype event = SDL_KEYDOWN scancode | SDL_KEYUP scancode | SDL_OTHER_EVENT

text \<open>
  The fields of \<^verbatim>\<open>MazeShooter\<close> that the game logic reads and writes. The position,
  direction, camera plane, camera height and vertical velocity are finite doubles.
\<close>

record game =
  currentState :: GameState
  selectedMenuItem :: MenuItem
  currentGunFrame :: int
  isShooting :: bool
  animationTimer :: Uint32
  lastAnimationTime :: Uint32
  posX :: real
  posY :: real
  dirX :: real
  dirY :: real
  planeX :: real
  planeY :: real
  cameraHeight :: real
  verticalVelocity :: real
  isJumping :: bool
  keys :: "scancode \<Rightarrow> bool"

text \<open>The constructor; \<open>ticks\<close> is what \<^verbatim>\<open>SDL_GetTicks()\<close> returned.\<close>

definition MazeShooter :: "Uint32 \<Rightarrow> game" where
  "MazeShooter ticks =
     \<lparr> currentState = STATE_MENU, selectedMenuItem = MENU_NEW_GAME,
       currentGunFrame = 0, isShooting = False, animationTimer = 0,
       lastAnimationTime = ticks,
       posX = 22.0, posY = 12.0, dirX = -1.0, dirY = 0.0, planeX = 0.0, planeY = 0.66,
       cameraHeight = GROUND_HEIGHT, verticalVelocity = 0.0, isJumping = False,
       keys = (\<lambda>_. False) \<rparr>"

definition startNewGame :: "game \<Rightarrow> game" where
  "startNewGame s =
     s\<lparr> posX := 22.0, posY := 12.0, dirX := -1.0, dirY := 0.0, planeX := 0.0, planeY := 0.66,
        cameraHeight := GROUND_HEIGHT, verticalVelocity := 0.0, isJumping := False,
        currentState := STATE_PLAYING \<rparr>"

definition returnToMenu :: "game \<Rightarrow> game" where
  "returnToMenu s = s\<lparr> currentState := STATE_MENU, selectedMenuItem := MENU_NEW_GAME \<rparr>"

subsection \<open>The gun animation\<close>

text \<open>\<open>now\<close> is the value of \<^verbatim>\<open>SDL_GetTicks()\<close> at the call.\<close>

definition shootGun :: "Uint32 \<Rightarrow> game \<Rightarrow> game" where
  "shootGun now s =
     (if isShooting s then s
      else s\<lparr> isShooting := True, currentGunFrame := 1, animationTimer := 0,
               lastAnimationTime := now \<rparr>)"

text \<open>
  \<^verbatim>\<open>currentTime - lastAnimationTime >= ANIMATION_SPEED\<close> is a comparison of unsigned
  32-bit values; the difference wraps around.
\<close>

definition updateGunAnimation :: "Uint32 \<Rightarrow> game \<Rightarrow> game" where
  "updateGunAnimation currentTime s =
     (if \<not> isShooting s then s\<lparr> currentGunFrame := 0 \<rparr>
      else if ANIMATION_SPEED \<le> currentTime - lastAnimationTime s then
        (let s1 = s\<lparr> currentGunFrame := currentGunFrame s + 1,
                      lastAnimationTime := currentTime \<rparr>
         in if GUN_FRAMES \<le> currentGunFrame s1
            then s1\<lparr> currentGunFrame := 0, isShooting := False \<rparr>
            else s1)
      else s)"

text \<open>
  \<^verbatim>\<open>drawGun\<close> starts by reading \<^verbatim>\<open>gunSprites[currentGunFrame]\<close>, an array of
  \<open>GUN_FRAMES\<close> sprite pointers.
\<close>

definition drawGun_sprite :: "'a list \<Rightarrow> game \<Rightarrow> error + 'a" where
  "drawGun_sprite gunSprites s = arrayAt gunSprites (currentGunFrame s)"

text \<open>A sequence of calls of the two methods, as the frame loop and the key handler make them.\<close>

datatype gunCall = ShootGun Uint32 | UpdateGunAnimation Uint32

fun gunCalls :: "gunCall list \<Rightarrow> game \<Rightarrow> game" where
  "gunCalls [] s = s"
| "gunCalls (ShootGun now # cs) s = gunCalls cs (shootGun now s)"
| "gunCalls (UpdateGunAnimation now # cs) s = gunCalls cs (updateGunAnimation now s)"

subsection \<open>Key events while playing\<close>

text \<open>
  The jump is triggered with the impulse \<open>JUMP_SPEED\<close>; the impulse is a parameter here so
  that the integrator can be studied for any impulse.
\<close>

definition jumpTrigger :: "real \<Rightarrow> game \<Rightarrow> game" where
  "jumpTrigger impulse s =
     (if \<not> isJumping s then s\<lparr> verticalVelocity := impulse, isJumping := True \<rparr> else s)"

definition handleGameEvents :: "Uint32 \<Rightarrow> event \<Rightarrow> game \<Rightarrow> game" where
  "handleGameEvents now e s =
     (case e of
        SDL_KEYDOWN sc \<Rightarrow>
          (let s1 = s\<lparr> keys := (keys s)(sc := True) \<rparr> in
           if sc = SDL_SCANCODE_ESCAPE then returnToMenu s1
           else
             (let s2 = (if sc = SDL_SCANCODE_SPACE then jumpTrigger JUMP_SPEED s1 else s1);
                  s3 = (if (sc = SDL_SCANCODE_LSHIFT \<or> sc = SDL_SCANCODE_RSHIFT) \<and> \<not> isShooting s2
                        then shootGun now s2 else s2);
                  s4 = (if sc = SDL_SCANCODE_X \<and> \<not> isShooting s3 then shootGun now s3 else s3)
              in s4))
      | SDL_KEYUP sc \<Rightarrow> s\<lparr> keys := (keys s)(sc := False) \<rparr>
      | SDL_OTHER_EVENT \<Rightarrow> s)"

subsection \<open>The grid\<close>

text \<open>
  \<^verbatim>\<open>int worldMap[MAP_WIDTH][MAP_HEIGHT]\<close>, read as \<^verbatim>\<open>worldMap[x][y]\<close>: a list of
  \<open>MAP_WIDTH\<close> lists of \<open>MAP_HEIGHT\<close> cells (each row of the initialiser is written
  below in four pieces of six cells). The functions below take the grid as an argument;
  the program always passes \<open>worldMap\<close>.
\<close>

type_synonym grid = "int list list"

definition worldMap :: grid where
  "worldMap =
   [[1,1,1,1,1,1] @ [1,1,1,1,1,1] @ [1,1,1,1,1,1] @ [1,1,1,1,1,1],
    [1,0,0,0,0,0] @ [0,0,0,0,0,0] @ [0,0,0,0,0,0] @ [0,0,0,0,0,1],
    [1,0,0,0,0,0] @ [0,0,0,0,0,0] @ [0,0,0,0,0,0] @ [0,0,0,0,0,1],
    [1,0,0,0,0,0] @ [0,0,0,0,0,0] @ [0,0,0,0,0,0] @ [0,0,0,0,0,1],
    [1,0,0,0,0,0] @ [2,2,2,2,2,0] @ [0,0,0,3,0,3] @ [0,3,0,0,0,1],
    [1,0,0,0,0,0] @ [2,0,0,0,2,0] @ [0,0,0,0,0,0] @ [0,0,0,0,0,1],
    [1,0,0,0,0,0] @ [2,0,0,0,2,0] @ [0,0,0,3,0,0] @ [0,3,0,0,0,1],
    [1,0,0,0,0,0] @ [2,0,0,0,2,0] @ [0,0,0,0,0,0] @ [0,0,0,0,0,1],
    [1,0,0,0,0,0] @ [2,2,0,2,2,0] @ [0,0,0,3,0,3] @ [0,3,0,0,0,1],
    [1,0,0,0,0,0] @ [0,0,0,0,0,0] @ [0,0,0,0,0,0] @ [0,0,0,0,0,1],
    [1,0,0,0,0,0] @ [0,0,0,0,0,0] @ [0,0,0,0,0,0] @ [0,0,0,0,0,1],
    [1,0,0,0,0,0] @ [0,0,0,0,0,0] @ [0,0,0,0,0,0] @ [0,0,0,0,0,1],
    [1,0,0,0,0,0] @ [0,0,0,0,0,0] @ [0,0,0,0,0,0] @ [0,0,0,0,0,1],
    [1,0,0,0,0,0] @ [0,0,0,0,0,0] @ [0,0,0,0,0,0] @ [0,0,0,0,0,1],
    [1,0,0,0,0,0] @ [0,0,0,0,0,0] @ [0,0,0,0,0,0] @ [0,0,0,0,0,1],
    [1,0,0,0,0,0] @ [0,0,0,0,0,0] @ [0,0,0,0,0,0] @ [0,0,0,0,0,1],
    [1,4,4,4,4,4] @ [4,4,4,0,0,0] @ [0,0,0,0,0,0] @ [0,0,0,0,0,1],
    [1,4,0,4,0,0] @ [0,0,4,0,0,0] @ [0,0,0,0,0,0] @ [0,0,0,0,0,1],
    [1,4,0,0,0,0] @ [5,0,4,0,0,0] @ [0,0,0,0,0,0] @ [0,0,0,0,0,1],
    [1,4,0,4,0,0] @ [0,0,4,0,0,0] @ [0,0,0,0,0,0] @ [0,0,0,0,0,1],
    [1,4,4,4,4,4] @ [4,4,4,0,0,0] @ [0,0,0,0,0,0] @ [0,0,0,0,0,1],
    [1,0,0,0,0,0] @ [0,0,0,0,0,0] @ [0,0,0,0,0,0] @ [0,0,0,0,0,1],
    [1,0,0,0,0,0] @ [0,0,0,0,0,0] @ [0,0,0,0,0,0] @ [0,0,0,0,0,1],
    [1,1,1,1,1,1] @ [1,1,1,1,1,1] @ [1,1,1,1,1,1] @ [1,1,1,1,1,1]]"

definition worldMapAt :: "grid \<Rightarrow> int \<Rightarrow> int \<Rightarrow> error + int" where
  "worldMapAt g x y = (case arrayAt g x of Inl e \<Rightarrow> Inl e | Inr col \<Rightarrow> arrayAt col y)"

text \<open>
  A grid of \<open>W\<close> by \<open>H\<close> cells whose outer border holds walls only. A wall is a cell
  with a positive value, as the ray loop tests it (\<^verbatim>\<open>worldMap[mapX][mapY] > 0\<close>).
\<close>

definition sealedBorder :: "nat \<Rightarrow> nat \<Rightarrow> grid \<Rightarrow> bool" where
  "sealedBorder W H g \<longleftrightarrow>
     0 < W \<and> 0 < H \<and> length g = W \<and> list_all (\<lambda>col. length col = H) g
     \<and> list_all (\<lambda>v. 0 < v) (hd g) \<and> list_all (\<lambda>v. 0 < v) (last g)
     \<and> list_all (\<lambda>col. 0 < hd col \<and> 0 < last col) g"

subsection \<open>Conversion of a double to int\<close>

text \<open>
  \<^verbatim>\<open>int(d)\<close> truncates towards zero. (A value beyond the range of \<^verbatim>\<open>int\<close>, where the
  conversion is undefined, is far outside any grid: every use below is an index into the
  grid, and the read is then \<open>OutOfBounds\<close>.)
\<close>

definition cint :: "real \<Rightarrow> int" where
  "cint d = (if 0 \<le> d then \<lfloor>d\<rfloor> else \<lceil>d\<rceil>)"

subsection \<open>Movement, rotation and jumping: the held-key part of \<^verbatim>\<open>handleEvents\<close>\<close>

text \<open>
  The four movement blocks have one shape,
  \<^verbatim>\<open>if (worldMap[int(posX + dx)][int(posY)] == 0) posX += dx;\<close>
  \<^verbatim>\<open>if (worldMap[int(posX)][int(posY + dy)] == 0) posY += dy;\<close>
  with \<open>(dx, dy)\<close> the direction or the camera plane times \<open>MOVE_SPEED\<close>, added or
  subtracted. The second statement reads \<^verbatim>\<open>posX\<close> after the first has run.
\<close>

definition moveBy :: "grid \<Rightarrow> real \<Rightarrow> real \<Rightarrow> game \<Rightarrow> error + game" where
  "moveBy g dx dy s =
     (case worldMapAt g (cint (posX s + dx)) (cint (posY s)) of
        Inl e \<Rightarrow> Inl e
      | Inr tx \<Rightarrow>
          (let s1 = (if tx = 0 then s\<lparr> posX := posX s + dx \<rparr> else s) in
           case worldMapAt g (cint (posX s1)) (cint (posY s1 + dy)) of
             Inl e \<Rightarrow> Inl e
           | Inr ty \<Rightarrow> Inr (if ty = 0 then s1\<lparr> posY := posY s1 + dy \<rparr> else s1)))"

definition whenKey :: "scancode \<Rightarrow> (game \<Rightarrow> error + game) \<Rightarrow> game \<Rightarrow> error + game" where
  "whenKey k f s = (if keys s k then f s else Inr s)"

definition handleMovement :: "grid \<Rightarrow> game \<Rightarrow> error + game" where
  "handleMovement g s =
     (case whenKey SDL_SCANCODE_W
             (\<lambda>s. moveBy g (dirX s * MOVE_SPEED) (dirY s * MOVE_SPEED) s) s of
        Inl e \<Rightarrow> Inl e
      | Inr s1 \<Rightarrow>
     (case whenKey SDL_SCANCODE_S
             (\<lambda>s. moveBy g (- (dirX s * MOVE_SPEED)) (- (dirY s * MOVE_SPEED)) s) s1 of
        Inl e \<Rightarrow> Inl e
      | Inr s2 \<Rightarrow>
     (case whenKey SDL_SCANCODE_A
             (\<lambda>s. moveBy g (- (planeX s * MOVE_SPEED)) (- (planeY s * MOVE_SPEED)) s) s2 of
        Inl e \<Rightarrow> Inl e
      | Inr s3 \<Rightarrow>
        whenKey SDL_SCANCODE_D
             (\<lambda>s. moveBy g (planeX s * MOVE_SPEED) (planeY s * MOVE_SPEED) s) s3)))"

text \<open>
  The two rotation blocks apply the same update with the angle \<open>ROT_SPEED\<close> and
  \<open>- ROT_SPEED\<close>: the new \<^verbatim>\<open>dirY\<close> is computed from the saved \<^verbatim>\<open>oldDirX\<close>, the new
  \<^verbatim>\<open>planeY\<close> from the saved \<^verbatim>\<open>oldPlaneX\<close>.
\<close>

definition rotateBy :: "real \<Rightarrow> game \<Rightarrow> game" where
  "rotateBy a s =
     (let oldDirX = dirX s;
          s1 = s\<lparr> dirX := dirX s * cos a - dirY s * sin a \<rparr>;
          s2 = s1\<lparr> dirY := oldDirX * sin a + dirY s1 * cos a \<rparr>;
          oldPlaneX = planeX s2;
          s3 = s2\<lparr> planeX := planeX s2 * cos a - planeY s2 * sin a \<rparr>;
          s4 = s3\<lparr> planeY := oldPlaneX * sin a + planeY s3 * cos a \<rparr>
      in s4)"

definition handleRotation :: "game \<Rightarrow> game" where
  "handleRotation s =
     (let s1 = (if keys s SDL_SCANCODE_LEFT then rotateBy ROT_SPEED s else s);
          s2 = (if keys s1 SDL_SCANCODE_RIGHT then rotateBy (- ROT_SPEED) s1 else s1)
      in s2)"

text \<open>A sequence of turn operations, one rotation block each.\<close>

datatype turn = TurnLeft | TurnRight

fun turns :: "turn list \<Rightarrow> game \<Rightarrow> game" where
  "turns [] s = s"
| "turns (TurnLeft # ts) s = turns ts (rotateBy ROT_SPEED s)"
| "turns (TurnRight # ts) s = turns ts (rotateBy (- ROT_SPEED) s)"

text \<open>
  The jump integrator; the program runs it with \<open>gravity = GRAVITY\<close>.
\<close>

definition jumpPhysics :: "real \<Rightarrow> game \<Rightarrow> game" where
  "jumpPhysics gravity s =
     (if isJumping s then
        (let s1 = s\<lparr> cameraHeight := cameraHeight s + verticalVelocity s \<rparr>;
             s2 = s1\<lparr> verticalVelocity := verticalVelocity s1 - gravity \<rparr>
         in if cameraHeight s2 \<le> GROUND_HEIGHT
            then s2\<lparr> cameraHeight := GROUND_HEIGHT, verticalVelocity := 0.0, isJumping := False \<rparr>
            else s2)
      else s)"

text \<open>The block \<^verbatim>\<open>if (currentState == STATE_PLAYING) { ... }\<close> that ends \<^verbatim>\<open>handleEvents\<close>.\<close>

definition handleEvents_held :: "grid \<Rightarrow> Uint32 \<Rightarrow> game \<Rightarrow> error + game" where
  "handleEvents_held g now s =
     (if currentState s = STATE_PLAYING then
        (case handleMovement g s of
           Inl e \<Rightarrow> Inl e
         | Inr s1 \<Rightarrow> Inr (updateGunAnimation now (jumpPhysics GRAVITY (handleRotation s1))))
      else Inr s)"

subsection \<open>Doubles that may be infinite\<close>

text \<open>
  The ray caster divides by the components of the ray direction, which may be zero. Under
  IEEE 754 (which the program's platform implements for \<^verbatim>\<open>double\<close>) such a division
  gives an infinity or NaN, and the program computes on with it. \<open>double\<close> is a finite
  value, \<open>+\<infinity>\<close>, \<open>-\<infinity>\<close> or NaN; the operations follow IEEE 754 on the special values and
  are exact on finite ones. The two zeros are not told apart: a finite non-zero value
  divided by zero is taken with the sign it has for \<open>+0.0\<close>. The program takes the
  absolute value of the only such quotient it goes on to use.
\<close>

datatype double = Fin real | PInf | NInf | NaN

text \<open>\<^verbatim>\<open>a / b\<close> for finite \<open>a\<close> and \<open>b\<close>.\<close>

definition ddiv :: "real \<Rightarrow> real \<Rightarrow> double" where
  "ddiv a b =
     (if b \<noteq> 0 then Fin (a / b)
      else if a = 0 then NaN
      else if 0 < a then PInf else NInf)"

fun dabs :: "double \<Rightarrow> double" where
  "dabs (Fin a) = Fin \<bar>a\<bar>"
| "dabs PInf = PInf"
| "dabs NInf = PInf"
| "dabs NaN = NaN"

fun dmul :: "double \<Rightarrow> double \<Rightarrow> double" where
  "dmul NaN _ = NaN"
| "dmul _ NaN = NaN"
| "dmul (Fin a) (Fin b) = Fin (a * b)"
| "dmul (Fin a) PInf = (if a = 0 then NaN else if 0 < a then PInf else NInf)"
| "dmul (Fin a) NInf = (if a = 0 then NaN else if 0 < a then NInf else PInf)"
| "dmul PInf (Fin b) = (if b = 0 then NaN else if 0 < b then PInf else NInf)"
| "dmul NInf (Fin b) = (if b = 0 then NaN else if 0 < b then NInf else PInf)"
| "dmul PInf PInf = PInf"
| "dmul PInf NInf = NInf"
| "dmul NInf PInf = NInf"
| "dmul NInf NInf = PInf"

fun dadd :: "double \<Rightarrow> double \<Rightarrow> double" where
  "dadd NaN _ = NaN"
| "dadd _ NaN = NaN"
| "dadd (Fin a) (Fin b) = Fin (a + b)"
| "dadd (Fin a) PInf = PInf"
| "dadd (Fin a) NInf = NInf"
| "dadd PInf (Fin b) = PInf"
| "dadd NInf (Fin b) = NInf"
| "dadd PInf PInf = PInf"
| "dadd NInf NInf = NInf"
| "dadd PInf NInf = NaN"
| "dadd NInf PInf = NaN"

text \<open>\<^verbatim>\<open>a < b\<close>: false as soon as one side is NaN.\<close>

fun dless :: "double \<Rightarrow> double \<Rightarrow> bool" where
  "dless (Fin a) (Fin b) = (a < b)"
| "dless (Fin a) PInf = True"
| "dless NInf (Fin b) = True"
| "dless NInf PInf = True"
| "dless _ _ = False"

subsection \<open>The ray caster of \<^verbatim>\<open>renderGame\<close>\<close>

text \<open>What the step loop reads only: the ray, its delta distances and step directions.\<close>

record ray =
  rayDirX :: real
  rayDirY :: real
  deltaDistX :: double
  deltaDistY :: double
  stepX :: int
  stepY :: int

text \<open>What the step loop updates. (\<^verbatim>\<open>side\<close> has no value before the first iteration.)\<close>

record dda =
  mapX :: int
  mapY :: int
  sideDistX :: double
  sideDistY :: double

text \<open>The statements between the ray direction and the loop, for a player at \<open>(px, py)\<close>.\<close>

definition ddaSetup :: "real \<Rightarrow> real \<Rightarrow> real \<Rightarrow> real \<Rightarrow> ray \<times> dda" where
  "ddaSetup px py rdx rdy =
     (let mx = cint px;
          my = cint py;
          deltaX = dabs (ddiv 1 rdx);
          deltaY = dabs (ddiv 1 rdy);
          (sx, sideX) =
            (if rdx < 0 then (- 1, dmul (Fin (px - real_of_int mx)) deltaX)
             else (1, dmul (Fin (real_of_int mx + 1.0 - px)) deltaX));
          (sy, sideY) =
            (if rdy < 0 then (- 1, dmul (Fin (py - real_of_int my)) deltaY)
             else (1, dmul (Fin (real_of_int my + 1.0 - py)) deltaY))
      in (\<lparr> rayDirX = rdx, rayDirY = rdy, deltaDistX = deltaX, deltaDistY = deltaY,
             stepX = sx, stepY = sy \<rparr>,
          \<lparr> mapX = mx, mapY = my, sideDistX = sideX, sideDistY = sideY \<rparr>))"

text \<open>The first statement of the loop body: the new loop state and \<^verbatim>\<open>side\<close>.\<close>

definition ddaStep :: "ray \<Rightarrow> dda \<Rightarrow> dda \<times> int" where
  "ddaStep r st =
     (if dless (sideDistX st) (sideDistY st)
      then (st\<lparr> sideDistX := dadd (sideDistX st) (deltaDistX r), mapX := mapX st + stepX r \<rparr>, 0)
      else (st\<lparr> sideDistY := dadd (sideDistY st) (deltaDistY r), mapY := mapY st + stepY r \<rparr>, 1))"

text \<open>
  \<^verbatim>\<open>while (hit == 0) { ... if (worldMap[mapX][mapY] > 0) hit = 1; }\<close>. The program's loop
  has no bound; here it may run the body \<open>fuel\<close> times and is \<open>OutOfFuel\<close> if no wall
  has been hit by then.
\<close>

fun ddaLoop :: "nat \<Rightarrow> grid \<Rightarrow> ray \<Rightarrow> dda \<Rightarrow> error + dda \<times> int" where
  "ddaLoop 0 g r st = Inl OutOfFuel"
| "ddaLoop (Suc fuel) g r st =
     (let (st', side) = ddaStep r st in
      case worldMapAt g (mapX st') (mapY st') of
        Inl e \<Rightarrow> Inl e
      | Inr t \<Rightarrow> if 0 < t then Inr (st', side) else ddaLoop fuel g r st')"

text \<open>The loop body run \<open>k\<close> times, whatever the cells read.\<close>

fun ddaSteps :: "nat \<Rightarrow> ray \<Rightarrow> dda \<Rightarrow> dda" where
  "ddaSteps 0 r st = st"
| "ddaSteps (Suc k) r st = ddaSteps k r (fst (ddaStep r st))"

record rayHit =
  hitMapX :: int
  hitMapY :: int
  hitSide :: int
  perpWallDist :: double

text \<open>Screen column \<open>x\<close>, up to the perpendicular wall distance.\<close>

definition castRay :: "nat \<Rightarrow> grid \<Rightarrow> game \<Rightarrow> int \<Rightarrow> error + rayHit" where
  "castRay fuel g s x =
     (let cameraX = real_of_int (2 * x) / real_of_int SCREEN_WIDTH - 1;
          rdx = dirX s + planeX s * cameraX;
          rdy = dirY s + planeY s * cameraX;
          (r, st0) = ddaSetup (posX s) (posY s) rdx rdy
      in case ddaLoop fuel g r st0 of
           Inl e \<Rightarrow> Inl e
         | Inr (st, side) \<Rightarrow>
             Inr \<lparr> hitMapX = mapX st, hitMapY = mapY st, hitSide = side,
                   perpWallDist =
                     (if side = 0
                      then ddiv (real_of_int (mapX st) - posX s + real_of_int ((1 - stepX r) div 2)) rdx
                      else ddiv (real_of_int (mapY st) - posY s + real_of_int ((1 - stepY r) div 2)) rdy) \<rparr>)"

text \<open>
  The shape of a delta or side distance along an axis whose ray component is \<open>rd\<close>:
  \<open>+\<infinity>\<close> when the component is zero, finite otherwise.
\<close>

definition distOK :: "real \<Rightarrow> double \<Rightarrow> bool" where
  "distOK rd d = (case d of Fin a \<Rightarrow> rd \<noteq> 0 | PInf \<Rightarrow> rd = 0 | NInf \<Rightarrow> False | NaN \<Rightarrow> False)"

section \<open>Properties\<close>

subsection \<open>Texture sampling\<close>

lemma and_63_take_bit: "(w :: 32 word) AND 63 = take_bit 6 w"
proof -
  have "(63 :: 32 word) = mask 6"
    by (simp add: mask_eq_exp_minus_1)
  then show ?thesis
    by (simp only: take_bit_eq_mask)
qed

lemma take_bit_6_add_64: "take_bit 6 (u + n * 64) = take_bit 6 (u :: 32 word)"
  by transfer (simp add: take_bit_eq_mod)

lemma and_63_add_64: "(u + n * 64) AND 63 = (u :: 32 word) AND 63"
  by (simp only: and_63_take_bit take_bit_6_add_64)

text \<open>
  With a texture number in \<open>[1, NUM_TEXTURES)\<close> and a texture array of the declared shape,
  the read is in range and gives the pixel at the coordinates taken modulo 64.
\<close>

lemma masked_index:
  fixes u v :: "32 word"
  shows "sint (64 * (v AND 63) + (u AND 63)) = 64 * (uint v mod 64) + uint u mod 64"
proof -
  have "uint (u AND 63) = take_bit 6 (uint u)" and "uint (v AND 63) = take_bit 6 (uint v)"
    by (simp_all only: and_63_take_bit unsigned_take_bit_eq)
  then have u: "uint (u AND 63) = uint u mod 64" and v: "uint (v AND 63) = uint v mod 64"
    by (simp_all add: take_bit_eq_mod)
  have "uint (64 * (v AND 63) + (u AND 63)) = (64 * uint (v AND 63) + uint (u AND 63)) mod 2 ^ 32"
    by (simp add: uint_word_ariths mod_simps)
  also have "\<dots> = 64 * (uint v mod 64) + uint u mod 64"
    unfolding u v
    by (rule mod_pos_pos_trivial) (simp_all add: pos_mod_sign pos_mod_bound add_nonneg_nonneg, presburger?)
  finally have ui: "uint (64 * (v AND 63) + (u AND 63)) = 64 * (uint v mod 64) + uint u mod 64" .
  have "uint v mod 64 < 64" and "uint u mod 64 < 64"
    by simp_all
  then have "uint (64 * (v AND 63) + (u AND 63)) < 2 ^ 31"
    unfolding ui by simp
  moreover have "- (2 ^ 31) \<le> uint (64 * (v AND 63) + (u AND 63))"
    by (rule order_trans [where y = 0]) simp_all
  ultimately have "signed_take_bit 31 (uint (64 * (v AND 63) + (u AND 63)))
      = uint (64 * (v AND 63) + (u AND 63))"
    by (intro signed_take_bit_int_eq_self)
  then have "sint (64 * (v AND 63) + (u AND 63)) = uint (64 * (v AND 63) + (u AND 63))"
    by (simp add: sint_uint)
  then show ?thesis
    by (simp only: ui)
qed


lemma getTexturePixel_valid:
  assumes lo: "1 \<le>s textureNum" and hi: "textureNum <s NUM_TEXTURES"
    and len: "length texture = 8" and rows: "\<forall>row \<in> set texture. length row = 4096"
  shows "getTexturePixel texture textureNum texX texY
         = Inr (texture ! nat (sint textureNum) ! nat (64 * (uint texY mod 64) + uint texX mod 64))"
proof -
  have n: "1 \<le> sint textureNum" "sint textureNum < 8"
    using lo hi by (simp_all add: word_sle_eq word_sless_alt NUM_TEXTURES_def)
  then have valid: "\<not> (textureNum <s 1 \<or> NUM_TEXTURES \<le>s textureNum)"
    by (simp add: word_sle_eq word_sless_alt NUM_TEXTURES_def)
  have "nat (sint textureNum) < length texture"
    using n len by simp
  then have "texture ! nat (sint textureNum) \<in> set texture"
    by (rule nth_mem)
  then have rowlen: "length (texture ! nat (sint textureNum)) = 4096"
    using rows by blast
  have row: "arrayAt texture (sint textureNum) = Inr (texture ! nat (sint textureNum))"
    using n len by (simp add: arrayAt_def)
  have "uint texY mod 64 < 64" and "uint texX mod 64 < 64"
    and "0 \<le> uint texY mod 64" and "0 \<le> uint texX mod 64"
    by simp_all
  then have idx: "0 \<le> 64 * (uint texY mod 64) + uint texX mod 64"
      "64 * (uint texY mod 64) + uint texX mod 64 < 4096"
    by linarith+
  have px: "arrayAt (texture ! nat (sint textureNum)) (64 * (uint texY mod 64) + uint texX mod 64)
      = Inr (texture ! nat (sint textureNum) ! nat (64 * (uint texY mod 64) + uint texX mod 64))"
    using idx rowlen by (simp add: arrayAt_def)
  show ?thesis
    using valid
    by (simp add: getTexturePixel_def Let_def TEXTURE_WIDTH_def TEXTURE_HEIGHT_def row
        masked_index px)
qed

text \<open>
  Claim C7. A texture number below 1 (so also 0) or at least \<open>NUM_TEXTURES\<close> gives the
  magenta sentinel \<open>0xFFFF00FF\<close> for all coordinates and whatever the texture array
  holds: the result is a pixel, never the error of an out-of-range read.
\<close>

theorem getTexturePixel_sentinel:
  "textureNum <s 1 \<or> NUM_TEXTURES \<le>s textureNum
     \<Longrightarrow> getTexturePixel texture textureNum texX texY = Inr 0xFFFF00FF"
  by (simp add: getTexturePixel_def Let_def)

theorem getTexturePixel_sentinel_witness:
  "((99 :: int32) <s 1 \<or> NUM_TEXTURES \<le>s 99) \<and> getTexturePixel [] 99 5 7 = Inr 0xFFFF00FF"
proof -
  have h: "(99 :: int32) <s 1 \<or> NUM_TEXTURES \<le>s 99"
    by (simp add: NUM_TEXTURES_def word_sle_eq)
  show ?thesis
    using h getTexturePixel_sentinel [OF h, of "[]" 5 7] by simp
qed

text \<open>
  Claim C8. Sampling is periodic in both coordinates with the period of the texture
  size, for every multiple \<open>N\<close> (taken as a 32-bit \<^verbatim>\<open>int\<close>, like the coordinates).
\<close>

theorem getTexturePixel_periodic:
  "getTexturePixel texture idx (u + word_of_int N * TEXTURE_WIDTH) v = getTexturePixel texture idx u v
   \<and> getTexturePixel texture idx u (v + word_of_int N * TEXTURE_HEIGHT) = getTexturePixel texture idx u v"
  by (simp add: getTexturePixel_def TEXTURE_WIDTH_def TEXTURE_HEIGHT_def and_63_add_64)

subsection \<open>The gun animation\<close>

text \<open>
  Claim C9. While a firing animation is in progress, \<^verbatim>\<open>shootGun\<close> changes nothing at
  all, and a key-down event of any of the three fire keys leaves the animation frame,
  both timer fields and the firing flag as they were.
\<close>

theorem shootGun_while_shooting:
  "isShooting s \<Longrightarrow>
     shootGun now s = s
     \<and> (let s' = handleGameEvents now (SDL_KEYDOWN sc) s
        in sc \<in> {SDL_SCANCODE_LSHIFT, SDL_SCANCODE_RSHIFT, SDL_SCANCODE_X} \<longrightarrow>
           currentGunFrame s' = currentGunFrame s \<and> animationTimer s' = animationTimer s
           \<and> lastAnimationTime s' = lastAnimationTime s \<and> isShooting s')"
  by (auto simp: shootGun_def handleGameEvents_def Let_def)

theorem shootGun_while_shooting_witness:
  "isShooting (shootGun 7 (MazeShooter 0))
   \<and> shootGun 250 (shootGun 7 (MazeShooter 0)) = shootGun 7 (MazeShooter 0)
   \<and> currentGunFrame (handleGameEvents 250 (SDL_KEYDOWN SDL_SCANCODE_X) (shootGun 7 (MazeShooter 0))) = 1
   \<and> lastAnimationTime (handleGameEvents 250 (SDL_KEYDOWN SDL_SCANCODE_X) (shootGun 7 (MazeShooter 0))) = 7"
proof -
  have h: "isShooting (shootGun 7 (MazeShooter 0))"
    by (simp add: shootGun_def MazeShooter_def)
  have v: "currentGunFrame (shootGun 7 (MazeShooter 0)) = 1"
          "lastAnimationTime (shootGun 7 (MazeShooter 0)) = 7"
    by (simp_all add: shootGun_def MazeShooter_def)
  show ?thesis
    using h v shootGun_while_shooting [OF h, of 250 SDL_SCANCODE_X]
    by (simp add: Let_def)
qed

lemma gun_inv_shootGun:
  "(isShooting s \<longrightarrow> 1 \<le> currentGunFrame s \<and> currentGunFrame s < GUN_FRAMES)
   \<and> (\<not> isShooting s \<longrightarrow> currentGunFrame s = 0)
   \<Longrightarrow> (isShooting (shootGun now s) \<longrightarrow>
          1 \<le> currentGunFrame (shootGun now s) \<and> currentGunFrame (shootGun now s) < GUN_FRAMES)
       \<and> (\<not> isShooting (shootGun now s) \<longrightarrow> currentGunFrame (shootGun now s) = 0)"
  by (simp add: shootGun_def GUN_FRAMES_def)

lemma gun_inv_updateGunAnimation:
  "(isShooting s \<longrightarrow> 1 \<le> currentGunFrame s \<and> currentGunFrame s < GUN_FRAMES)
   \<and> (\<not> isShooting s \<longrightarrow> currentGunFrame s = 0)
   \<Longrightarrow> (isShooting (updateGunAnimation now s) \<longrightarrow>
          1 \<le> currentGunFrame (updateGunAnimation now s)
          \<and> currentGunFrame (updateGunAnimation now s) < GUN_FRAMES)
       \<and> (\<not> isShooting (updateGunAnimation now s) \<longrightarrow> currentGunFrame (updateGunAnimation now s) = 0)"
  by (auto simp: updateGunAnimation_def Let_def GUN_FRAMES_def)

lemma gun_inv_gunCalls:
  "(isShooting s \<longrightarrow> 1 \<le> currentGunFrame s \<and> currentGunFrame s < GUN_FRAMES)
   \<and> (\<not> isShooting s \<longrightarrow> currentGunFrame s = 0)
   \<Longrightarrow> (isShooting (gunCalls cs s) \<longrightarrow>
          1 \<le> currentGunFrame (gunCalls cs s) \<and> currentGunFrame (gunCalls cs s) < GUN_FRAMES)
       \<and> (\<not> isShooting (gunCalls cs s) \<longrightarrow> currentGunFrame (gunCalls cs s) = 0)"
proof (induction cs arbitrary: s)
  case Nil
  then show ?case by simp
next
  case (Cons c cs)
  show ?case
  proof (cases c)
    case (ShootGun now)
    then show ?thesis
      using Cons.IH [OF gun_inv_shootGun [OF Cons.prems, of now]] by simp
  next
    case (UpdateGunAnimation now)
    then show ?thesis
      using Cons.IH [OF gun_inv_updateGunAnimation [OF Cons.prems, of now]] by simp
  qed
qed

text \<open>
  Claim C10. From any state with \<open>currentGunFrame = 0\<close> and \<open>isShooting = False\<close> (the
  constructor's), after any sequence of \<^verbatim>\<open>shootGun\<close> and \<^verbatim>\<open>updateGunAnimation\<close> calls with
  any clock values: the frame lies in \<open>[0, GUN_FRAMES)\<close>, the read of
  \<^verbatim>\<open>gunSprites[currentGunFrame]\<close> is in range, and a further \<^verbatim>\<open>updateGunAnimation\<close> that
  ends with \<open>isShooting\<close> false ends with frame 0.
\<close>

theorem currentGunFrame_in_range:
  assumes "currentGunFrame s0 = 0" and "\<not> isShooting s0"
  shows "0 \<le> currentGunFrame (gunCalls cs s0) \<and> currentGunFrame (gunCalls cs s0) < GUN_FRAMES
         \<and> (length gunSprites = nat GUN_FRAMES \<longrightarrow>
              drawGun_sprite gunSprites (gunCalls cs s0)
                = Inr (gunSprites ! nat (currentGunFrame (gunCalls cs s0))))
         \<and> (\<not> isShooting (updateGunAnimation now (gunCalls cs s0)) \<longrightarrow>
              currentGunFrame (updateGunAnimation now (gunCalls cs s0)) = 0)"
proof -
  have inv0: "(isShooting s0 \<longrightarrow> 1 \<le> currentGunFrame s0 \<and> currentGunFrame s0 < GUN_FRAMES)
              \<and> (\<not> isShooting s0 \<longrightarrow> currentGunFrame s0 = 0)"
    using assms by simp
  note inv = gun_inv_gunCalls [OF inv0, of cs]
  have range: "0 \<le> currentGunFrame (gunCalls cs s0) \<and> currentGunFrame (gunCalls cs s0) < GUN_FRAMES"
    using inv by (cases "isShooting (gunCalls cs s0)") (simp_all add: GUN_FRAMES_def)
  have sprite: "length gunSprites = nat GUN_FRAMES \<longrightarrow>
      drawGun_sprite gunSprites (gunCalls cs s0)
        = Inr (gunSprites ! nat (currentGunFrame (gunCalls cs s0)))"
    using range by (simp add: drawGun_sprite_def arrayAt_def GUN_FRAMES_def)
  have after: "\<not> isShooting (updateGunAnimation now (gunCalls cs s0)) \<longrightarrow>
      currentGunFrame (updateGunAnimation now (gunCalls cs s0)) = 0"
    using gun_inv_updateGunAnimation [OF inv, of now] by simp
  show ?thesis
    using range sprite after by simp
qed

theorem currentGunFrame_in_range_witness:
  "currentGunFrame (MazeShooter 0) = 0 \<and> \<not> isShooting (MazeShooter 0)
   \<and> currentGunFrame (gunCalls [ShootGun 10, UpdateGunAnimation 120, UpdateGunAnimation 230,
        UpdateGunAnimation 340] (MazeShooter 0)) < GUN_FRAMES
   \<and> drawGun_sprite [''idle'', ''fire1'', ''fire2'', ''fire3'']
        (gunCalls [ShootGun 10, UpdateGunAnimation 120, UpdateGunAnimation 230,
           UpdateGunAnimation 340] (MazeShooter 0)) = Inr ''idle''"
proof -
  have h1: "currentGunFrame (MazeShooter 0) = 0" and h2: "\<not> isShooting (MazeShooter 0)"
    by (simp_all add: MazeShooter_def)
  have v: "currentGunFrame (gunCalls [ShootGun 10, UpdateGunAnimation 120, UpdateGunAnimation 230,
        UpdateGunAnimation 340] (MazeShooter 0)) = 0"
    by (simp add: MazeShooter_def shootGun_def updateGunAnimation_def ANIMATION_SPEED_def
        GUN_FRAMES_def Let_def)
  have len: "length [''idle'', ''fire1'', ''fire2'', ''fire3''] = nat GUN_FRAMES"
    by (simp add: GUN_FRAMES_def)
  show ?thesis
    using h1 h2 v len
      currentGunFrame_in_range [OF h1 h2, of "[ShootGun 10, UpdateGunAnimation 120,
        UpdateGunAnimation 230, UpdateGunAnimation 340]" "[''idle'', ''fire1'', ''fire2'', ''fire3'']" 0]
    by simp
qed

subsection \<open>Rotation\<close>

lemma cos_sq_real: "cos a * cos a = 1 - sin a * sin (a::real)"
  using sin_cos_squared_add [of a] by (simp add: power2_eq_square)

lemma rot_norm: "(x * cos a - y * sin a)\<^sup>2 + (x * sin a + y * cos a)\<^sup>2 = x\<^sup>2 + (y::real)\<^sup>2"
  by (simp add: power2_eq_square algebra_simps cos_sq_real)

lemma rot_dot:
  "(x * cos a - y * sin a) * (u * cos a - v * sin a) + (x * sin a + y * cos a) * (u * sin a + v * cos a)
     = x * u + y * (v::real)"
  by (simp add: algebra_simps cos_sq_real)

lemma rotateBy_fields:
  "dirX (rotateBy a s) = dirX s * cos a - dirY s * sin a"
  "dirY (rotateBy a s) = dirX s * sin a + dirY s * cos a"
  "planeX (rotateBy a s) = planeX s * cos a - planeY s * sin a"
  "planeY (rotateBy a s) = planeX s * sin a + planeY s * cos a"
  by (simp_all add: rotateBy_def Let_def)

lemma rotateBy_preserves:
  "(dirX (rotateBy a s))\<^sup>2 + (dirY (rotateBy a s))\<^sup>2 = (dirX s)\<^sup>2 + (dirY s)\<^sup>2"
  "(planeX (rotateBy a s))\<^sup>2 + (planeY (rotateBy a s))\<^sup>2 = (planeX s)\<^sup>2 + (planeY s)\<^sup>2"
  "dirX (rotateBy a s) * planeX (rotateBy a s) + dirY (rotateBy a s) * planeY (rotateBy a s)
     = dirX s * planeX s + dirY s * planeY s"
  by (simp_all only: rotateBy_fields rot_norm rot_dot)

text \<open>What one frame does with the turn keys that are held is a sequence of turns.\<close>

lemma handleRotation_turns:
  "handleRotation s =
     turns ((if keys s SDL_SCANCODE_LEFT then [TurnLeft] else [])
            @ (if keys s SDL_SCANCODE_RIGHT then [TurnRight] else [])) s"
  by (simp add: handleRotation_def rotateBy_def Let_def)

text \<open>
  Claim C6. After any sequence of left and right turns the squared length of the
  direction vector, the squared length of the camera plane vector and the scalar product
  of the two are what they were before; so the length of the direction and the angle
  between direction and plane are unchanged, and perpendicular vectors stay perpendicular.
  The doubles are taken as reals here: the equalities are exact, the program's values
  differ from them by its rounding errors.
\<close>

theorem turns_preserve:
  "(dirX (turns ts s))\<^sup>2 + (dirY (turns ts s))\<^sup>2 = (dirX s)\<^sup>2 + (dirY s)\<^sup>2
   \<and> (planeX (turns ts s))\<^sup>2 + (planeY (turns ts s))\<^sup>2 = (planeX s)\<^sup>2 + (planeY s)\<^sup>2
   \<and> dirX (turns ts s) * planeX (turns ts s) + dirY (turns ts s) * planeY (turns ts s)
       = dirX s * planeX s + dirY s * planeY s"
proof (induction ts arbitrary: s)
  case Nil
  show ?case by simp
next
  case (Cons t ts)
  show ?case
    by (cases t) (simp_all only: turns.simps Cons.IH rotateBy_preserves simp_thms)
qed

subsection \<open>Jumping\<close>








text \<open>
  With the program's constants, in exact arithmetic, the arc peaks at height 1.2 and the
  31st step lands: the state is again the one before the jump.
\<close>

lemma jump_arc_program_constants:
  "(jumpPhysics GRAVITY ^^ 31) (jumpTrigger JUMP_SPEED (MazeShooter 0)) = MazeShooter 0
   \<and> isJumping ((jumpPhysics GRAVITY ^^ 30) (jumpTrigger JUMP_SPEED (MazeShooter 0)))
   \<and> cameraHeight ((jumpPhysics GRAVITY ^^ 15) (jumpTrigger JUMP_SPEED (MazeShooter 0))) = 1.2"
  by (simp add: eval_nat_numeral jumpPhysics_def jumpTrigger_def MazeShooter_def Let_def
      GRAVITY_def JUMP_SPEED_def GROUND_HEIGHT_def)



subsection \<open>Movement and collision\<close>

text \<open>With exactly one movement key held, \<^verbatim>\<open>handleEvents\<close> runs one block of the four.\<close>

lemma handleMovement_single_key:
  "keys s = (\<lambda>k. k = SDL_SCANCODE_W) \<Longrightarrow>
     handleMovement g s = moveBy g (dirX s * MOVE_SPEED) (dirY s * MOVE_SPEED) s"
  "keys s = (\<lambda>k. k = SDL_SCANCODE_S) \<Longrightarrow>
     handleMovement g s = moveBy g (- (dirX s * MOVE_SPEED)) (- (dirY s * MOVE_SPEED)) s"
  "keys s = (\<lambda>k. k = SDL_SCANCODE_A) \<Longrightarrow>
     handleMovement g s = moveBy g (- (planeX s * MOVE_SPEED)) (- (planeY s * MOVE_SPEED)) s"
  "keys s = (\<lambda>k. k = SDL_SCANCODE_D) \<Longrightarrow>
     handleMovement g s = moveBy g (planeX s * MOVE_SPEED) (planeY s * MOVE_SPEED) s"
  by (simp_all add: handleMovement_def whenKey_def moveBy_def Let_def split: sum.splits)

lemma moveBy_posX:
  "moveBy g dx dy s = Inr s' \<Longrightarrow>
     posX s' = (if worldMapAt g (cint (posX s + dx)) (cint (posY s)) = Inr 0 then posX s + dx else posX s)"
  by (auto simp: moveBy_def Let_def split: sum.splits if_splits)

lemma moveBy_posY:
  "moveBy g dx dy s = Inr s' \<Longrightarrow>
     posY s' = (if worldMapAt g (cint (posX s')) (cint (posY s + dy)) = Inr 0 then posY s + dy else posY s)"
  by (auto simp: moveBy_def Let_def split: sum.splits if_splits)

text \<open>
  Claim C1, as the code has it. For every grid, state and displacement \<open>(dx, dy)\<close> (so
  for each of the four movement keys), when no read leaves the grid: the x move is made
  exactly when the cell at (candidate x, current y) is 0; the y move is made exactly when
  the cell at (x \<^emph>\<open>after\<close> the x update, candidate y) is 0. So when the x move is blocked
  and the cell at (current x, candidate y) is free, the player moves along y only; and
  when the x move is made and the cell at (candidate x, candidate y) is a wall, the
  player moves along x only.
\<close>

theorem moveBy_axis_checks:
  assumes "moveBy g dx dy s = Inr s'"
  shows "posX s' = (if worldMapAt g (cint (posX s + dx)) (cint (posY s)) = Inr 0
                    then posX s + dx else posX s)
       \<and> posY s' = (if worldMapAt g (cint (posX s')) (cint (posY s + dy)) = Inr 0
                    then posY s + dy else posY s)
       \<and> (worldMapAt g (cint (posX s + dx)) (cint (posY s)) \<noteq> Inr 0
            \<and> worldMapAt g (cint (posX s)) (cint (posY s + dy)) = Inr 0
            \<longrightarrow> posX s' = posX s \<and> posY s' = posY s + dy)
       \<and> (worldMapAt g (cint (posX s + dx)) (cint (posY s)) = Inr 0
            \<and> worldMapAt g (cint (posX s + dx)) (cint (posY s + dy)) \<noteq> Inr 0
            \<longrightarrow> posX s' = posX s + dx \<and> posY s' = posY s)"
  using moveBy_posX [OF assms] moveBy_posY [OF assms] by simp

theorem moveBy_axis_checks_witness:
  "moveBy worldMap (0.6 * MOVE_SPEED) (0.8 * MOVE_SPEED) ((MazeShooter 0)\<lparr> posX := 3.99, posY := 15.5 \<rparr>)
     = Inr ((MazeShooter 0)\<lparr> posX := 3.99, posY := 15.54 \<rparr>)
   \<and> worldMapAt worldMap (cint (3.99 + 0.6 * MOVE_SPEED)) (cint 15.5) = Inr 3
   \<and> worldMapAt worldMap (cint 3.99) (cint (15.5 + 0.8 * MOVE_SPEED)) = Inr 0
   \<and> moveBy worldMap (0.6 * MOVE_SPEED) (0.8 * MOVE_SPEED) ((MazeShooter 0)\<lparr> posX := 3.99, posY := 14.99 \<rparr>)
     = Inr ((MazeShooter 0)\<lparr> posX := 4.02, posY := 14.99 \<rparr>)
   \<and> worldMapAt worldMap (cint (3.99 + 0.6 * MOVE_SPEED)) (cint 14.99) = Inr 0
   \<and> worldMapAt worldMap (cint (3.99 + 0.6 * MOVE_SPEED)) (cint (14.99 + 0.8 * MOVE_SPEED)) = Inr 3"
proof -
  have a: "moveBy worldMap (0.6 * MOVE_SPEED) (0.8 * MOVE_SPEED) ((MazeShooter 0)\<lparr> posX := 3.99, posY := 15.5 \<rparr>)
     = Inr ((MazeShooter 0)\<lparr> posX := 3.99, posY := 15.54 \<rparr>)"
    by (simp add: moveBy_def Let_def MazeShooter_def worldMapAt_def arrayAt_def worldMap_def
        cint_def MOVE_SPEED_def)
  have b: "moveBy worldMap (0.6 * MOVE_SPEED) (0.8 * MOVE_SPEED) ((MazeShooter 0)\<lparr> posX := 3.99, posY := 14.99 \<rparr>)
     = Inr ((MazeShooter 0)\<lparr> posX := 4.02, posY := 14.99 \<rparr>)"
    by (simp add: moveBy_def Let_def MazeShooter_def worldMapAt_def arrayAt_def worldMap_def
        cint_def MOVE_SPEED_def)
  have tiles:
    "worldMapAt worldMap (cint (3.99 + 0.6 * MOVE_SPEED)) (cint 15.5) = Inr 3"
    "worldMapAt worldMap (cint 3.99) (cint (15.5 + 0.8 * MOVE_SPEED)) = Inr 0"
    "worldMapAt worldMap (cint (3.99 + 0.6 * MOVE_SPEED)) (cint 14.99) = Inr 0"
    "worldMapAt worldMap (cint (3.99 + 0.6 * MOVE_SPEED)) (cint (14.99 + 0.8 * MOVE_SPEED)) = Inr 3"
    by (simp_all add: worldMapAt_def arrayAt_def worldMap_def cint_def MOVE_SPEED_def)
  show ?thesis
    using a b tiles moveBy_axis_checks [OF a] moveBy_axis_checks [OF b] by simp
qed

text \<open>
  Claim C1 as stated (the y check reads the x of before the update) fails on the
  program's map, forward key held, direction \<open>(0.6, 0.8)\<close>, next to the pillar at
  \<open>(4, 15)\<close>. From \<open>(4.99, 14.99)\<close> the cell at (old x, candidate y) is the pillar, yet
  the y move is made, because the x move has crossed into column 5. From
  \<open>(3.99, 14.99)\<close> the cell at (old x, candidate y) is free, yet the y move is not
  made, because the x move has crossed into column 4.
\<close>

theorem moveBy_y_check_counterexample:
  "worldMapAt worldMap (cint 4.99) (cint (14.99 + 0.8 * MOVE_SPEED)) = Inr 3
   \<and> handleMovement worldMap
       ((handleGameEvents 0 (SDL_KEYDOWN SDL_SCANCODE_W) (startNewGame (MazeShooter 0)))
          \<lparr> posX := 4.99, posY := 14.99, dirX := 0.6, dirY := 0.8, planeX := - 0.528, planeY := 0.396 \<rparr>)
     = Inr ((handleGameEvents 0 (SDL_KEYDOWN SDL_SCANCODE_W) (startNewGame (MazeShooter 0)))
          \<lparr> posX := 4.99 + 0.6 * MOVE_SPEED, posY := 14.99 + 0.8 * MOVE_SPEED,
            dirX := 0.6, dirY := 0.8, planeX := - 0.528, planeY := 0.396 \<rparr>)
   \<and> worldMapAt worldMap (cint 3.99) (cint (14.99 + 0.8 * MOVE_SPEED)) = Inr 0
   \<and> handleMovement worldMap
       ((handleGameEvents 0 (SDL_KEYDOWN SDL_SCANCODE_W) (startNewGame (MazeShooter 0)))
          \<lparr> posX := 3.99, posY := 14.99, dirX := 0.6, dirY := 0.8, planeX := - 0.528, planeY := 0.396 \<rparr>)
     = Inr ((handleGameEvents 0 (SDL_KEYDOWN SDL_SCANCODE_W) (startNewGame (MazeShooter 0)))
          \<lparr> posX := 3.99 + 0.6 * MOVE_SPEED, posY := 14.99,
            dirX := 0.6, dirY := 0.8, planeX := - 0.528, planeY := 0.396 \<rparr>)"
  by (simp add: handleMovement_def whenKey_def moveBy_def Let_def handleGameEvents_def
      startNewGame_def MazeShooter_def worldMapAt_def arrayAt_def worldMap_def cint_def MOVE_SPEED_def)

subsection \<open>The step loop of the ray caster ends\<close>

lemma sealedBorder_cell:
  assumes "sealedBorder W H g" and "0 \<le> x" and "x < int W" and "0 \<le> y" and "y < int H"
  shows "\<exists>t. worldMapAt g x y = Inr t
            \<and> (x = 0 \<or> x = int W - 1 \<or> y = 0 \<or> y = int H - 1 \<longrightarrow> 0 < t)"
proof -
  from assms(1) have len: "length g = W" and rows: "\<forall>col \<in> set g. length col = H"
    and first: "\<forall>v \<in> set (hd g). 0 < v" and last: "\<forall>v \<in> set (last g). 0 < v"
    and ends: "\<forall>col \<in> set g. 0 < hd col \<and> 0 < last col"
    by (simp_all add: sealedBorder_def list_all_iff)
  have xin: "nat x < length g"
    using assms(2,3) len by simp
  then have col: "g ! nat x \<in> set g"
    by simp
  then have collen: "length (g ! nat x) = H"
    using rows by blast
  have yin: "nat y < length (g ! nat x)"
    using assms(4,5) collen by simp
  have at: "worldMapAt g x y = Inr (g ! nat x ! nat y)"
    using assms(2-5) len collen by (simp add: worldMapAt_def arrayAt_def)
  have gne: "g \<noteq> []"
    using xin by auto
  have cne: "g ! nat x \<noteq> []"
    using yin by auto
  have "0 < g ! nat x ! nat y" if b: "x = 0 \<or> x = int W - 1 \<or> y = 0 \<or> y = int H - 1"
  proof -
    consider "x = 0" | "x = int W - 1" | "y = 0" | "y = int H - 1"
      using b by blast
    then show ?thesis
    proof cases
      case 1
      then have "g ! nat x = hd g"
        using gne by (simp add: hd_conv_nth)
      then have "g ! nat x ! nat y \<in> set (hd g)"
        using yin by (metis nth_mem)
      then show ?thesis using first by blast
    next
      case 2
      then have "nat x = length g - 1"
        using len by simp
      then have "g ! nat x = last g"
        using gne by (simp add: last_conv_nth)
      then have "g ! nat x ! nat y \<in> set (last g)"
        using yin by (metis nth_mem)
      then show ?thesis using last by blast
    next
      case 3
      then have "g ! nat x ! nat y = hd (g ! nat x)"
        using cne by (simp add: hd_conv_nth)
      then show ?thesis using ends col by simp
    next
      case 4
      then have "nat y = length (g ! nat x) - 1"
        using collen by simp
      then have "g ! nat x ! nat y = last (g ! nat x)"
        using cne by (simp add: last_conv_nth)
      then show ?thesis using ends col by simp
    qed
  qed
  with at show ?thesis by blast
qed

lemma worldMapAt_in_range:
  assumes "sealedBorder W H g" and "worldMapAt g x y = Inr t"
  shows "0 \<le> x \<and> x < int W \<and> 0 \<le> y \<and> y < int H"
proof -
  from assms(1) have len: "length g = W" and rows: "\<forall>col \<in> set g. length col = H"
    by (simp_all add: sealedBorder_def list_all_iff)
  from assms(2) have x: "0 \<le> x \<and> x < int (length g)"
    by (auto simp: worldMapAt_def arrayAt_def split: if_splits)
  then have "nat x < length g"
    by (simp add: nat_less_iff)
  then have "g ! nat x \<in> set g"
    by (rule nth_mem)
  then have collen: "length (g ! nat x) = H"
    using rows by blast
  from assms(2) x have "0 \<le> y \<and> y < int (length (g ! nat x))"
    by (auto simp: worldMapAt_def arrayAt_def split: if_splits)
  then show ?thesis
    using x len collen by simp
qed

lemma free_cell_interior:
  assumes "sealedBorder W H g" and "worldMapAt g x y = Inr t" and "t \<le> 0"
  shows "1 \<le> x \<and> x \<le> int W - 2 \<and> 1 \<le> y \<and> y \<le> int H - 2"
proof -
  note r = worldMapAt_in_range [OF assms(1,2)]
  obtain t' where t': "worldMapAt g x y = Inr t'"
      "x = 0 \<or> x = int W - 1 \<or> y = 0 \<or> y = int H - 1 \<longrightarrow> 0 < t'"
    using sealedBorder_cell [OF assms(1), of x y] r by blast
  then have "t' = t"
    using assms(2) by simp
  then have "\<not> (x = 0 \<or> x = int W - 1 \<or> y = 0 \<or> y = int H - 1)"
    using t'(2) assms(3) by auto
  then show ?thesis
    using r by auto
qed


lemma ddaStep_maps:
  "(mapX (fst (ddaStep r st)) = mapX st + stepX r \<and> mapY (fst (ddaStep r st)) = mapY st)
   \<or> (mapX (fst (ddaStep r st)) = mapX st \<and> mapY (fst (ddaStep r st)) = mapY st + stepY r)"
  by (simp add: ddaStep_def)

lemma ddaLoop_Suc:
  "ddaLoop (Suc n) g r st =
     (case worldMapAt g (mapX (fst (ddaStep r st))) (mapY (fst (ddaStep r st))) of
        Inl e \<Rightarrow> Inl e
      | Inr t \<Rightarrow> if 0 < t then Inr (ddaStep r st) else ddaLoop n g r (fst (ddaStep r st)))"
  by (cases "ddaStep r st") (simp split: sum.split)

lemma ddaLoop_hits:
  assumes sealed: "sealedBorder W H g"
    and sx: "stepX r = 1 \<or> stepX r = - 1" and sy: "stepY r = 1 \<or> stepY r = - 1"
  shows "1 \<le> mapX st \<Longrightarrow> mapX st \<le> int W - 2 \<Longrightarrow> 1 \<le> mapY st \<Longrightarrow> mapY st \<le> int H - 2 \<Longrightarrow>
     (if stepX r = 1 then int W - 1 - mapX st else mapX st)
       + (if stepY r = 1 then int H - 1 - mapY st else mapY st) \<le> int n + 1 \<Longrightarrow>
     \<exists>hit t. ddaLoop n g r st = Inr hit \<and> worldMapAt g (mapX (fst hit)) (mapY (fst hit)) = Inr t \<and> 0 < t"
proof (induction n arbitrary: st)
  case 0
  then show ?case
    by (auto split: if_splits)
next
  case (Suc n)
  let ?st = "fst (ddaStep r st)"
  have range: "0 \<le> mapX ?st \<and> mapX ?st < int W \<and> 0 \<le> mapY ?st \<and> mapY ?st < int H"
    using ddaStep_maps [of r st] sx sy Suc.prems(1-4) by auto
  have dist: "(if stepX r = 1 then int W - 1 - mapX ?st else mapX ?st)
       + (if stepY r = 1 then int H - 1 - mapY ?st else mapY ?st) \<le> int n + 1"
    using ddaStep_maps [of r st] sx sy Suc.prems(5) by auto
  obtain t where t: "worldMapAt g (mapX ?st) (mapY ?st) = Inr t"
    using sealedBorder_cell [OF sealed, of "mapX ?st" "mapY ?st"] range by blast
  show ?case
  proof (cases "0 < t")
    case True
    then have "ddaLoop (Suc n) g r st = Inr (ddaStep r st)"
      using t by (simp only: ddaLoop_Suc sum.case if_True)
    then show ?thesis
      using t True by blast
  next
    case False
    then have loop: "ddaLoop (Suc n) g r st = ddaLoop n g r ?st"
      using t by (simp only: ddaLoop_Suc sum.case if_False)
    have "t \<le> 0"
      using False by simp
    then have inner: "1 \<le> mapX ?st \<and> mapX ?st \<le> int W - 2 \<and> 1 \<le> mapY ?st \<and> mapY ?st \<le> int H - 2"
      using free_cell_interior [OF sealed t] by blast
    show ?thesis
      unfolding loop using Suc.IH [of ?st] inner dist by blast
  qed
qed

lemma ddaSetup_fields:
  "mapX (snd (ddaSetup px py rdx rdy)) = cint px"
  "mapY (snd (ddaSetup px py rdx rdy)) = cint py"
  "stepX (fst (ddaSetup px py rdx rdy)) = (if rdx < 0 then - 1 else 1)"
  "stepY (fst (ddaSetup px py rdx rdy)) = (if rdy < 0 then - 1 else 1)"
  "rayDirX (fst (ddaSetup px py rdx rdy)) = rdx"
  "rayDirY (fst (ddaSetup px py rdx rdy)) = rdy"
  "deltaDistX (fst (ddaSetup px py rdx rdy)) = dabs (ddiv 1 rdx)"
  "deltaDistY (fst (ddaSetup px py rdx rdy)) = dabs (ddiv 1 rdy)"
  by (simp_all add: ddaSetup_def Let_def)

lemma ddaLoop_from_free_cell:
  assumes sealed: "sealedBorder W H g" and free: "worldMapAt g (cint px) (cint py) = Inr 0"
  shows "\<exists>hit t. ddaLoop (W + H) g (fst (ddaSetup px py rdx rdy)) (snd (ddaSetup px py rdx rdy)) = Inr hit
           \<and> worldMapAt g (mapX (fst hit)) (mapY (fst hit)) = Inr t \<and> 0 < t"
proof -
  let ?r = "fst (ddaSetup px py rdx rdy)" and ?st = "snd (ddaSetup px py rdx rdy)"
  have inner: "1 \<le> cint px \<and> cint px \<le> int W - 2 \<and> 1 \<le> cint py \<and> cint py \<le> int H - 2"
    using free_cell_interior [OF sealed free] by simp
  have sx: "stepX ?r = 1 \<or> stepX ?r = - 1" and sy: "stepY ?r = 1 \<or> stepY ?r = - 1"
    by (simp_all add: ddaSetup_fields)
  have dist: "(if stepX ?r = 1 then int W - 1 - mapX ?st else mapX ?st)
       + (if stepY ?r = 1 then int H - 1 - mapY ?st else mapY ?st) \<le> int (W + H) + 1"
    using inner by (simp add: ddaSetup_fields)
  show ?thesis
    using ddaLoop_hits [OF sealed sx sy _ _ _ _ dist] inner by (simp add: ddaSetup_fields)
qed

lemma sealedBorder_worldMap: "sealedBorder MAP_WIDTH MAP_HEIGHT worldMap"
  by (simp add: sealedBorder_def MAP_WIDTH_def MAP_HEIGHT_def worldMap_def)

lemma free_start_cell: "worldMapAt worldMap (cint 22) (cint 12) = Inr 0"
  by (simp add: worldMapAt_def arrayAt_def worldMap_def cint_def)


text \<open>
  Claim C3. On a grid of \<open>W\<close> by \<open>H\<close> cells with a sealed border, for a player whose
  cell is free and for every ray direction \<open>(rdx, rdy)\<close>, the step loop hits a wall
  within \<open>W + H\<close> iterations and reads no cell outside the grid on the way; so does the
  ray of every screen column \<open>x\<close>. (The bound does not depend on the side distances:
  each iteration moves one cell towards the border in a fixed direction.)
\<close>

theorem ddaLoop_terminates:
  assumes "sealedBorder W H g" and "worldMapAt g (cint (posX s)) (cint (posY s)) = Inr 0"
  shows "(\<exists>hit t. ddaLoop (W + H) g (fst (ddaSetup (posX s) (posY s) rdx rdy))
                      (snd (ddaSetup (posX s) (posY s) rdx rdy)) = Inr hit
              \<and> worldMapAt g (mapX (fst hit)) (mapY (fst hit)) = Inr t \<and> 0 < t)
       \<and> (\<exists>h. castRay (W + H) g s x = Inr h)"
proof -
  have loop: "\<exists>hit t. ddaLoop (W + H) g (fst (ddaSetup (posX s) (posY s) rdx rdy))
                      (snd (ddaSetup (posX s) (posY s) rdx rdy)) = Inr hit
              \<and> worldMapAt g (mapX (fst hit)) (mapY (fst hit)) = Inr t \<and> 0 < t" for rdx rdy
    by (rule ddaLoop_from_free_cell [OF assms])
  let ?cameraX = "real_of_int (2 * x) / real_of_int SCREEN_WIDTH - 1"
  obtain hit where "ddaLoop (W + H) g
      (fst (ddaSetup (posX s) (posY s) (dirX s + planeX s * ?cameraX) (dirY s + planeY s * ?cameraX)))
      (snd (ddaSetup (posX s) (posY s) (dirX s + planeX s * ?cameraX) (dirY s + planeY s * ?cameraX)))
      = Inr hit"
    using loop by blast
  then have "\<exists>h. castRay (W + H) g s x = Inr h"
    by (simp add: castRay_def Let_def case_prod_beta)
  with loop show ?thesis by blast
qed

theorem ddaLoop_terminates_witness:
  "sealedBorder MAP_WIDTH MAP_HEIGHT worldMap
   \<and> worldMapAt worldMap (cint (posX (MazeShooter 0))) (cint (posY (MazeShooter 0))) = Inr 0
   \<and> (\<exists>hit t. ddaLoop (MAP_WIDTH + MAP_HEIGHT) worldMap
                  (fst (ddaSetup (posX (MazeShooter 0)) (posY (MazeShooter 0)) (- 0.8) 0.6))
                  (snd (ddaSetup (posX (MazeShooter 0)) (posY (MazeShooter 0)) (- 0.8) 0.6)) = Inr hit
          \<and> worldMapAt worldMap (mapX (fst hit)) (mapY (fst hit)) = Inr t \<and> 0 < t)
   \<and> (\<exists>h. castRay (MAP_WIDTH + MAP_HEIGHT) worldMap (MazeShooter 0) 100 = Inr h)"
proof -
  have s: "sealedBorder MAP_WIDTH MAP_HEIGHT worldMap"
    by (rule sealedBorder_worldMap)
  have f: "worldMapAt worldMap (cint (posX (MazeShooter 0))) (cint (posY (MazeShooter 0))) = Inr 0"
    by (simp add: MazeShooter_def worldMapAt_def arrayAt_def worldMap_def cint_def)
  show ?thesis
    using s f ddaLoop_terminates [OF s f, where rdx = "- 0.8" and rdy = "0.6" and x = 100] by blast
qed

subsection \<open>Ray components that are zero\<close>

lemma cint_next: "0 < real_of_int (cint p) + 1 - p"
proof (cases "0 \<le> p")
  case True
  then show ?thesis
    using floor_correct [of p] by (simp add: cint_def)
next
  case False
  have "p \<le> real_of_int \<lceil>p\<rceil>"
    by (rule le_of_int_ceiling)
  then have "p < real_of_int \<lceil>p\<rceil> + 1"
    by linarith
  with False show ?thesis
    by (simp add: cint_def)
qed

lemma distOK_cases:
  "distOK rd d \<Longrightarrow> rd = 0 \<Longrightarrow> d = PInf"
  "distOK rd d \<Longrightarrow> rd \<noteq> 0 \<Longrightarrow> \<exists>a. d = Fin a"
  "distOK rd d \<Longrightarrow> d \<noteq> NaN"
  by (cases d; simp add: distOK_def)+

lemma distOK_delta: "distOK rd (dabs (ddiv 1 rd))"
  by (simp add: distOK_def ddiv_def)

lemma distOK_dadd: "distOK rd a \<Longrightarrow> distOK rd b \<Longrightarrow> distOK rd (dadd a b)"
  by (cases a; cases b; simp add: distOK_def)

lemma distOK_side_init:
  "distOK rdx (sideDistX (snd (ddaSetup px py rdx rdy)))"
  "distOK rdy (sideDistY (snd (ddaSetup px py rdx rdy)))"
  using cint_next [of px] cint_next [of py]
  by (simp_all add: ddaSetup_def Let_def distOK_def ddiv_def)


lemma ddaStep_distOK:
  assumes "distOK (rayDirX r) (deltaDistX r)" and "distOK (rayDirY r) (deltaDistY r)"
    and "distOK (rayDirX r) (sideDistX st)" and "distOK (rayDirY r) (sideDistY st)"
  shows "distOK (rayDirX r) (sideDistX (fst (ddaStep r st)))
       \<and> distOK (rayDirY r) (sideDistY (fst (ddaStep r st)))"
  using assms by (simp add: ddaStep_def distOK_dadd)

lemma ddaSteps_distOK:
  assumes "distOK (rayDirX r) (deltaDistX r)" and "distOK (rayDirY r) (deltaDistY r)"
  shows "distOK (rayDirX r) (sideDistX st) \<Longrightarrow> distOK (rayDirY r) (sideDistY st) \<Longrightarrow>
         distOK (rayDirX r) (sideDistX (ddaSteps k r st))
       \<and> distOK (rayDirY r) (sideDistY (ddaSteps k r st))"
proof (induction k arbitrary: st)
  case 0
  then show ?case by simp
next
  case (Suc k)
  have "distOK (rayDirX r) (sideDistX (fst (ddaStep r st)))
      \<and> distOK (rayDirY r) (sideDistY (fst (ddaStep r st)))"
    by (rule ddaStep_distOK [OF assms Suc.prems])
  then show ?case
    using Suc.IH [of "fst (ddaStep r st)"] by simp
qed

lemma ddaStep_zero_x:
  assumes "rayDirX r = 0" and "distOK (rayDirX r) (sideDistX st)"
  shows "mapX (fst (ddaStep r st)) = mapX st \<and> snd (ddaStep r st) = 1"
proof -
  have "sideDistX st = PInf"
    using assms by (rule_tac distOK_cases(1))
  then show ?thesis
    by (simp add: ddaStep_def)
qed

lemma ddaStep_zero_y:
  assumes "rayDirY r = 0" and "rayDirX r \<noteq> 0"
    and "distOK (rayDirX r) (sideDistX st)" and "distOK (rayDirY r) (sideDistY st)"
  shows "mapY (fst (ddaStep r st)) = mapY st \<and> snd (ddaStep r st) = 0"
proof -
  have y: "sideDistY st = PInf"
    using assms(4,1) by (rule distOK_cases(1))
  obtain a where x: "sideDistX st = Fin a"
    using distOK_cases(2) [OF assms(3,2)] by blast
  show ?thesis
    by (simp add: ddaStep_def x y)
qed

lemma ddaSteps_zero_x:
  assumes "distOK (rayDirX r) (deltaDistX r)" and "distOK (rayDirY r) (deltaDistY r)"
    and "rayDirX r = 0"
  shows "distOK (rayDirX r) (sideDistX st) \<Longrightarrow> distOK (rayDirY r) (sideDistY st) \<Longrightarrow>
         mapX (ddaSteps k r st) = mapX st"
proof (induction k arbitrary: st)
  case 0
  then show ?case by simp
next
  case (Suc k)
  note ok = ddaStep_distOK [OF assms(1,2) Suc.prems]
  have "mapX (ddaSteps k r (fst (ddaStep r st))) = mapX (fst (ddaStep r st))"
    using Suc.IH [of "fst (ddaStep r st)"] ok by blast
  then show ?case
    using ddaStep_zero_x [OF assms(3) Suc.prems(1)] by simp
qed

lemma ddaSteps_zero_y:
  assumes "distOK (rayDirX r) (deltaDistX r)" and "distOK (rayDirY r) (deltaDistY r)"
    and "rayDirY r = 0" and "rayDirX r \<noteq> 0"
  shows "distOK (rayDirX r) (sideDistX st) \<Longrightarrow> distOK (rayDirY r) (sideDistY st) \<Longrightarrow>
         mapY (ddaSteps k r st) = mapY st"
proof (induction k arbitrary: st)
  case 0
  then show ?case by simp
next
  case (Suc k)
  note ok = ddaStep_distOK [OF assms(1,2) Suc.prems]
  have "mapY (ddaSteps k r (fst (ddaStep r st))) = mapY (fst (ddaStep r st))"
    using Suc.IH [of "fst (ddaStep r st)"] ok by blast
  then show ?case
    using ddaStep_zero_y [OF assms(3,4) Suc.prems] by simp
qed

lemma ddaLoop_result_steps:
  "ddaLoop n g r st = Inr hit \<Longrightarrow> \<exists>k<n. hit = ddaStep r (ddaSteps k r st)"
proof (induction n arbitrary: st)
  case 0
  then show ?case by simp
next
  case (Suc n)
  let ?st = "fst (ddaStep r st)"
  from Suc.prems have "hit = ddaStep r st \<or> ddaLoop n g r ?st = Inr hit"
    by (simp only: ddaLoop_Suc split: sum.splits if_splits) auto
  then show ?case
  proof
    assume "hit = ddaStep r st"
    then have "hit = ddaStep r (ddaSteps 0 r st)"
      by simp
    then show ?thesis by blast
  next
    assume "ddaLoop n g r ?st = Inr hit"
    then obtain k where "k < n" and "hit = ddaStep r (ddaSteps k r ?st)"
      using Suc.IH by blast
    then have "Suc k < Suc n" and "hit = ddaStep r (ddaSteps (Suc k) r st)"
      by simp_all
    then show ?thesis by blast
  qed
qed

text \<open>
  A direction that is not zero and a camera plane perpendicular to it give a ray that is
  not zero, in every screen column.
\<close>

lemma ray_not_zero:
  fixes dx dy px py c :: real
  assumes perp: "dx * px + dy * py = 0" and nz: "dx \<noteq> 0 \<or> dy \<noteq> 0"
  shows "dx + px * c \<noteq> 0 \<or> dy + py * c \<noteq> 0"
proof (rule ccontr)
  assume "\<not> (dx + px * c \<noteq> 0 \<or> dy + py * c \<noteq> 0)"
  then have x: "dx = - (px * c)" and y: "dy = - (py * c)"
    by simp_all
  have "dx * dx = - c * (dx * px)" and "dy * dy = - c * (dy * py)"
    using arg_cong [OF x, of "\<lambda>v. dx * v"] arg_cong [OF y, of "\<lambda>v. dy * v"]
    by (simp_all add: algebra_simps)
  then have "dx * dx + dy * dy = - c * (dx * px + dy * py)"
    by (simp add: algebra_simps)
  then have "dx * dx + dy * dy = 0"
    using perp by simp
  then have "dx = 0 \<and> dy = 0"
    by (simp add: sum_squares_eq_zero_iff)
  with nz show False by simp
qed

text \<open>
  Claim C2. There is no test for a zero ray component in the code: the guard is the
  IEEE 754 quotient \<^verbatim>\<open>1 / 0.0\<close>. For every position and ray: no delta distance and no
  side distance is NaN, at the start and after any number \<open>k\<close> of iterations of the loop
  body. The delta distance of an axis whose ray component is zero is \<open>+\<infinity>\<close>. If the x
  component is zero, the x side distance stays \<open>+\<infinity>\<close> and \<^verbatim>\<open>mapX\<close> never changes: every
  iteration takes the y branch, and the loop ends with \<^verbatim>\<open>side = 1\<close>. If the y component
  is zero and the x component is not, the same holds for y, with \<^verbatim>\<open>side = 0\<close>; hence the
  divisor of the perpendicular distance is not zero. (A ray with both components zero
  does not arise, see \<open>ray_not_zero\<close>; the loop would then take the y branch.) On a sealed grid, from a free cell, the loop ends
  within \<open>W + H\<close> iterations.
\<close>

theorem zero_ray_component:
  "case ddaSetup px py rdx rdy of
     (r, st0) \<Rightarrow>
       deltaDistX r \<noteq> NaN \<and> deltaDistY r \<noteq> NaN
       \<and> (rdx = 0 \<longrightarrow> deltaDistX r = PInf) \<and> (rdy = 0 \<longrightarrow> deltaDistY r = PInf)
       \<and> (\<forall>k. sideDistX (ddaSteps k r st0) \<noteq> NaN \<and> sideDistY (ddaSteps k r st0) \<noteq> NaN
              \<and> (rdx = 0 \<longrightarrow> sideDistX (ddaSteps k r st0) = PInf \<and> mapX (ddaSteps k r st0) = cint px)
              \<and> (rdy = 0 \<and> rdx \<noteq> 0 \<longrightarrow>
                    sideDistY (ddaSteps k r st0) = PInf \<and> mapY (ddaSteps k r st0) = cint py))
       \<and> (\<forall>n hit. ddaLoop n g r st0 = Inr hit \<longrightarrow>
              (rdx = 0 \<longrightarrow> mapX (fst hit) = cint px \<and> snd hit = 1)
              \<and> (rdy = 0 \<and> rdx \<noteq> 0 \<longrightarrow> mapY (fst hit) = cint py \<and> snd hit = 0))
       \<and> (sealedBorder W H g \<and> worldMapAt g (cint px) (cint py) = Inr 0 \<longrightarrow>
              (\<exists>hit. ddaLoop (W + H) g r st0 = Inr hit))"
proof -
  let ?r = "fst (ddaSetup px py rdx rdy)" and ?st0 = "snd (ddaSetup px py rdx rdy)"
  have rd: "rayDirX ?r = rdx" "rayDirY ?r = rdy"
    by (simp_all add: ddaSetup_fields)
  have dx: "distOK (rayDirX ?r) (deltaDistX ?r)" and dy: "distOK (rayDirY ?r) (deltaDistY ?r)"
    by (simp_all add: ddaSetup_fields distOK_delta)
  have sx: "distOK (rayDirX ?r) (sideDistX ?st0)" and sy: "distOK (rayDirY ?r) (sideDistY ?st0)"
    by (simp_all add: rd distOK_side_init)
  have m0: "mapX ?st0 = cint px" "mapY ?st0 = cint py"
    by (simp_all add: ddaSetup_fields)
  have delta: "deltaDistX ?r \<noteq> NaN \<and> deltaDistY ?r \<noteq> NaN
       \<and> (rdx = 0 \<longrightarrow> deltaDistX ?r = PInf) \<and> (rdy = 0 \<longrightarrow> deltaDistY ?r = PInf)"
    using distOK_cases(3) [OF dx] distOK_cases(3) [OF dy] distOK_cases(1) [OF dx] distOK_cases(1) [OF dy]
    by (simp add: rd)
  have steps: "sideDistX (ddaSteps k ?r ?st0) \<noteq> NaN \<and> sideDistY (ddaSteps k ?r ?st0) \<noteq> NaN
              \<and> (rdx = 0 \<longrightarrow> sideDistX (ddaSteps k ?r ?st0) = PInf \<and> mapX (ddaSteps k ?r ?st0) = cint px)
              \<and> (rdy = 0 \<and> rdx \<noteq> 0 \<longrightarrow>
                    sideDistY (ddaSteps k ?r ?st0) = PInf \<and> mapY (ddaSteps k ?r ?st0) = cint py)" for k
  proof -
    have ok: "distOK (rayDirX ?r) (sideDistX (ddaSteps k ?r ?st0))"
             "distOK (rayDirY ?r) (sideDistY (ddaSteps k ?r ?st0))"
      using ddaSteps_distOK [OF dx dy sx sy, of k] by simp_all
    have x: "mapX (ddaSteps k ?r ?st0) = cint px" if "rdx = 0"
    proof -
      have z: "rayDirX ?r = 0"
        unfolding rd by (fact that)
      show ?thesis
        using ddaSteps_zero_x [OF dx dy z sx sy, of k] by (simp only: m0)
    qed
    have y: "mapY (ddaSteps k ?r ?st0) = cint py" if "rdy = 0" and "rdx \<noteq> 0"
    proof -
      have z: "rayDirY ?r = 0" and nz: "rayDirX ?r \<noteq> 0"
        unfolding rd by (fact that)+
      show ?thesis
        using ddaSteps_zero_y [OF dx dy z nz sx sy, of k] by (simp only: m0)
    qed
    show ?thesis
      using distOK_cases(3) [OF ok(1)] distOK_cases(3) [OF ok(2)]
        distOK_cases(1) [OF ok(1)] distOK_cases(1) [OF ok(2)] x y
      by (simp add: rd)
  qed
  have loop: "(rdx = 0 \<longrightarrow> mapX (fst hit) = cint px \<and> snd hit = 1)
              \<and> (rdy = 0 \<and> rdx \<noteq> 0 \<longrightarrow> mapY (fst hit) = cint py \<and> snd hit = 0)"
    if res: "ddaLoop n g ?r ?st0 = Inr hit" for n hit
  proof -
    obtain k where hit: "hit = ddaStep ?r (ddaSteps k ?r ?st0)"
      using ddaLoop_result_steps [OF res] by blast
    have ok: "distOK (rayDirX ?r) (sideDistX (ddaSteps k ?r ?st0))"
             "distOK (rayDirY ?r) (sideDistY (ddaSteps k ?r ?st0))"
      using ddaSteps_distOK [OF dx dy sx sy, of k] by simp_all
    have x: "mapX (fst hit) = cint px \<and> snd hit = 1" if "rdx = 0"
    proof -
      have z: "rayDirX ?r = 0"
        unfolding rd by (fact that)
      have "mapX (ddaSteps k ?r ?st0) = cint px"
        using steps [of k] that by blast
      then show ?thesis
        using ddaStep_zero_x [OF z ok(1)] by (simp only: hit)
    qed
    have y: "mapY (fst hit) = cint py \<and> snd hit = 0" if "rdy = 0" and "rdx \<noteq> 0"
    proof -
      have z: "rayDirY ?r = 0" and nz: "rayDirX ?r \<noteq> 0"
        unfolding rd by (fact that)+
      have "mapY (ddaSteps k ?r ?st0) = cint py"
        using steps [of k] that by blast
      then show ?thesis
        using ddaStep_zero_y [OF z nz ok] by (simp only: hit)
    qed
    show ?thesis
      using x y by blast
  qed
  have "term": "\<exists>hit. ddaLoop (W + H) g ?r ?st0 = Inr hit"
    if "sealedBorder W H g \<and> worldMapAt g (cint px) (cint py) = Inr 0"
    using ddaLoop_from_free_cell [of W H g px py rdx rdy] that by blast
  show ?thesis
    unfolding case_prod_beta using delta steps loop "term" by blast
qed


theorem zero_ray_component_witness:
  "sealedBorder MAP_WIDTH MAP_HEIGHT worldMap \<and> worldMapAt worldMap (cint 22) (cint 12) = Inr 0
   \<and> (case ddaSetup 22 12 0 (- 1) of
        (r, st0) \<Rightarrow> deltaDistX r = PInf \<and> mapX (ddaSteps 5 r st0) = 22
           \<and> (\<exists>hit. ddaLoop (MAP_WIDTH + MAP_HEIGHT) worldMap r st0 = Inr hit \<and> snd hit = 1))
   \<and> (case ddaSetup 22 12 (- 1) 0 of
        (r, st0) \<Rightarrow> deltaDistY r = PInf \<and> mapY (ddaSteps 5 r st0) = 12
           \<and> (\<exists>hit. ddaLoop (MAP_WIDTH + MAP_HEIGHT) worldMap r st0 = Inr hit \<and> snd hit = 0))"
proof -
  note s = sealedBorder_worldMap and f = free_start_cell
  have c: "cint 22 = 22" "cint 12 = 12"
    by (simp_all add: cint_def)
  note a = zero_ray_component [where px = 22 and py = 12 and rdx = 0 and rdy = "- 1"
      and g = worldMap and W = MAP_WIDTH and H = MAP_HEIGHT, unfolded case_prod_beta c]
  note b = zero_ray_component [where px = 22 and py = 12 and rdx = "- 1" and rdy = 0
      and g = worldMap and W = MAP_WIDTH and H = MAP_HEIGHT, unfolded case_prod_beta c]
  have a1: "deltaDistX (fst (ddaSetup 22 12 0 (- 1))) = PInf"
    and a2: "mapX (ddaSteps 5 (fst (ddaSetup 22 12 0 (- 1))) (snd (ddaSetup 22 12 0 (- 1)))) = 22"
    using a by simp_all
  have a3: "\<exists>hit. ddaLoop (MAP_WIDTH + MAP_HEIGHT) worldMap (fst (ddaSetup 22 12 0 (- 1)))
              (snd (ddaSetup 22 12 0 (- 1))) = Inr hit \<and> snd hit = 1"
    using a s f [unfolded c] by blast
  have b1: "deltaDistY (fst (ddaSetup 22 12 (- 1) 0)) = PInf"
    and b2: "mapY (ddaSteps 5 (fst (ddaSetup 22 12 (- 1) 0)) (snd (ddaSetup 22 12 (- 1) 0))) = 12"
    using b by simp_all
  have b3: "\<exists>hit. ddaLoop (MAP_WIDTH + MAP_HEIGHT) worldMap (fst (ddaSetup 22 12 (- 1) 0))
              (snd (ddaSetup 22 12 (- 1) 0)) = Inr hit \<and> snd hit = 0"
  proof -
    have "\<forall>n hit. ddaLoop n worldMap (fst (ddaSetup 22 12 (- 1) 0)) (snd (ddaSetup 22 12 (- 1) 0)) = Inr hit
            \<longrightarrow> snd hit = 0"
      using b by simp
    moreover have "\<exists>hit. ddaLoop (MAP_WIDTH + MAP_HEIGHT) worldMap (fst (ddaSetup 22 12 (- 1) 0))
              (snd (ddaSetup 22 12 (- 1) 0)) = Inr hit"
      using b s f [unfolded c] by blast
    ultimately show ?thesis by blast
  qed
  show ?thesis
    unfolding case_prod_beta using s f a1 a2 a3 b1 b2 b3 by blast
qed


subsection \<open>A room of three by three cells\<close>

text \<open>
  Claim C4. In the room of 3 by 3 cells with walls of value 1 around one free cell, from
  \<open>(1.5, 1.5)\<close> with direction \<open>(1, 0)\<close> and camera plane \<open>(0, 0.66)\<close>, the ray of the
  centre column \<open>SCREEN_WIDTH div 2\<close> hits the cell \<open>(2, 1)\<close> on an x step
  (\<^verbatim>\<open>side = 0\<close>) at the perpendicular distance 0.5, whenever the loop may run at least
  once. The y component of this ray is exactly zero.
\<close>

theorem castRay_room3:
  "castRay (Suc n) [[1,1,1],[1,0,1],[1,1,1]]
     ((MazeShooter 0)\<lparr> posX := 1.5, posY := 1.5, dirX := 1, dirY := 0, planeX := 0, planeY := 0.66 \<rparr>)
     (SCREEN_WIDTH div 2)
   = Inr \<lparr> hitMapX = 2, hitMapY = 1, hitSide = 0, perpWallDist = Fin 0.5 \<rparr>"
  by (simp add: castRay_def ddaSetup_def ddaStep_def ddiv_def cint_def Let_def SCREEN_WIDTH_def
      MazeShooter_def worldMapAt_def arrayAt_def)

end
